theory Spec2Isabelle
  imports Complex_Main "HOL-Library.AList"
begin

section \<open>The host environment\<close>

text \<open>
  A JavaScript number as \<^verbatim>\<open>JSON.parse\<close> can return it: a finite double, given by its
  value, or an infinity (the text \<^verbatim>\<open>1e309\<close> parses to \<^verbatim>\<open>Infinity\<close>). Not every
  rational is the value of a double; what is proved of every \<open>Finite x\<close> holds of those
  that are. \<^verbatim>\<open>NaN\<close> is no result of \<^verbatim>\<open>JSON.parse\<close>, and adding 1 to one of these
  numbers does not give it.
\<close>

datatype number = Finite rat | Infinity | NegInfinity

fun isFinite :: "number \<Rightarrow> bool" where
  "isFinite (Finite x) = True"
| "isFinite Infinity = False"
| "isFinite NegInfinity = False"

text \<open>
  \<^verbatim>\<open>x + 1\<close>. On finite numbers the sum is taken exactly, where the program rounds it to
  a double: the two agree on the integers from \<open>- 2 ^ 53\<close> to \<open>2 ^ 53 - 1\<close>, which are
  the counts a run that starts from 0 goes through. Where the value of the sum is given
  for a number read from the storage, it is given for that range. The bounds that are
  proved of a sum (it is not below 1 when the number is not below 0) hold of the rounded
  sum as well, since rounding is monotone and 0 and 1 are doubles.
\<close>

fun plus1 :: "number \<Rightarrow> number" where
  "plus1 (Finite x) = Finite (x + 1)"
| "plus1 Infinity = Infinity"
| "plus1 NegInfinity = NegInfinity"

text \<open>\<^verbatim>\<open>x < m\<close> for a number \<open>x\<close> and an integer \<open>m\<close>, as in \<^verbatim>\<open>count < maxRetries\<close>.\<close>

fun numLess :: "number \<Rightarrow> int \<Rightarrow> bool" where
  "numLess (Finite x) m = (x < of_int m)"
| "numLess Infinity m = False"
| "numLess NegInfinity m = True"

text \<open>The values \<^verbatim>\<open>JSON.parse\<close> can return.\<close>

datatype json =
    JNull
  | JBool bool
  | JNum number
  | JStr string
  | JArr "json list"
  | JObj "(string \<times> json) list"

text \<open>
  A string held by \<^verbatim>\<open>sessionStorage\<close>. The code looks at such a string in two ways only:
  its truthiness (is it the empty string) and \<^verbatim>\<open>JSON.parse\<close>. A string is therefore
  represented by what \<^verbatim>\<open>JSON.parse\<close> does with it: \<open>NotJSON s\<close> is a text \<open>s\<close> that
  \<^verbatim>\<open>JSON.parse\<close> rejects with a SyntaxError (the empty string is one of them), and
  \<open>JSONText j\<close> is a text that parses to \<open>j\<close>, such as the one \<^verbatim>\<open>JSON.stringify\<close> writes
  for \<open>j\<close>.
\<close>

datatype stored = NotJSON string | JSONText json

fun truthy :: "stored \<Rightarrow> bool" where
  "truthy (NotJSON s) = (s \<noteq> [])"
| "truthy (JSONText j) = True"

text \<open>\<open>Inl s\<close> is the SyntaxError raised on the text \<open>s\<close>.\<close>

fun JSON_parse :: "stored \<Rightarrow> string + json" where
  "JSON_parse (NotJSON s) = Inl s"
| "JSON_parse (JSONText j) = Inr j"

text \<open>
  \<^verbatim>\<open>JSON.stringify\<close> writes a finite number so that it parses back to the same number,
  and writes \<^verbatim>\<open>null\<close> for a number that is not finite. \<open>written j\<close> is the value that
  the text written for \<open>j\<close> parses to.
\<close>

fun written :: "json \<Rightarrow> json" where
  "written (JNum n) = (if isFinite n then JNum n else JNull)"
| "written (JArr vs) = JArr (map written vs)"
| "written (JObj kvs) = JObj (map (\<lambda>(k, v). (k, written v)) kvs)"
| "written JNull = JNull"
| "written (JBool b) = JBool b"
| "written (JStr s) = JStr s"

definition JSON_stringify :: "json \<Rightarrow> stored" where
  "JSON_stringify j = JSONText (written j)"

text \<open>What \<^verbatim>\<open>console.error\<close> was called with.\<close>

datatype 'e logged = SyntaxError string | Thrown 'e

text \<open>
  The state the code reads and writes: the session storage (it survives a page reload),
  the calls of \<^verbatim>\<open>console.error\<close>, the number of calls of \<^verbatim>\<open>window.location.reload\<close>
  and the number of invocations of the import function. \<^verbatim>\<open>getItem\<close> and \<^verbatim>\<open>setItem\<close>
  themselves are taken not to throw.
\<close>

record 'e world =
  sessionStorage :: "string \<rightharpoonup> stored"
  console :: "'e logged list"
  reloads :: nat
  calls :: nat

section \<open>ForceReloadStorage\<close>

definition defaultStorageKey :: string where
  "defaultStorageKey = ''forceReloadedImportFunctions''"

datatype ForceReloadStorage = ForceReloadStorage (storageKey: string)

text \<open>The constructor, with its default parameter.\<close>

definition new_ForceReloadStorage :: "string option \<Rightarrow> ForceReloadStorage" where
  "new_ForceReloadStorage k =
     ForceReloadStorage (case k of None \<Rightarrow> defaultStorageKey | Some s \<Rightarrow> s)"

text \<open>
  A \<^verbatim>\<open>Map<string, number>\<close> is the list of its entries in insertion order, the keys
  distinct. \<^verbatim>\<open>set\<close> is \<open>AList.update\<close> (an existing key keeps its place, a new one
  goes to the end), \<^verbatim>\<open>get\<close> is \<open>map_of\<close>, \<^verbatim>\<open>delete\<close> is \<open>AList.delete\<close>.
\<close>

type_synonym ledger = "(string \<times> number) list"

text \<open>\<^verbatim>\<open>new Map(iterable)\<close> sets the entries one after the other: the last one of a key wins.\<close>

definition new_Map :: "(string \<times> number) list \<Rightarrow> ledger" where
  "new_Map es = fold (\<lambda>(k, v) m. AList.update k v m) es []"

text \<open>
  The callback of \<^verbatim>\<open>parsed.filter\<close> keeps the arrays whose element 0 is a string and
  whose element 1 is a number; the \<^verbatim>\<open>Map\<close> constructor then reads elements 0 and 1 of
  each. \<open>entry\<close> is both: \<open>None\<close> for a value the filter drops.
\<close>

fun entry :: "json \<Rightarrow> (string \<times> number) option" where
  "entry (JArr (JStr k # JNum n # rest)) = Some (k, n)"
| "entry _ = None"

definition getMap :: "ForceReloadStorage \<Rightarrow> 'e world \<Rightarrow> ledger \<times> 'e world" where
  "getMap this w =
     (case (case sessionStorage w (storageKey this) of
              None \<Rightarrow> Inr (JObj [])
            | Some stored \<Rightarrow> if truthy stored then JSON_parse stored else Inr (JObj [])) of
        Inr parsed \<Rightarrow>
          (new_Map (case parsed of JArr vs \<Rightarrow> List.map_filter entry vs | _ \<Rightarrow> []), w)
      | Inl error \<Rightarrow> ([], w\<lparr>console := console w @ [SyntaxError error]\<rparr>))"

definition save :: "ForceReloadStorage \<Rightarrow> ledger \<Rightarrow> 'e world \<Rightarrow> 'e world" where
  "save this m w =
     w\<lparr>sessionStorage := (sessionStorage w)
         (storageKey this \<mapsto> JSON_stringify (JArr (map (\<lambda>(k, n). JArr [JStr k, JNum n]) m)))\<rparr>"

definition addFunction :: "ForceReloadStorage \<Rightarrow> string \<Rightarrow> 'e world \<Rightarrow> 'e world" where
  "addFunction this functionName w =
     (case getMap this w of (m, w1) \<Rightarrow>
        save this
          (AList.update functionName
             (plus1 (case map_of m functionName of None \<Rightarrow> Finite 0 | Some n \<Rightarrow> n)) m)
          w1)"

definition removeFunction :: "ForceReloadStorage \<Rightarrow> string \<Rightarrow> 'e world \<Rightarrow> 'e world" where
  "removeFunction this functionName w =
     (case getMap this w of (m, w1) \<Rightarrow> save this (AList.delete functionName m) w1)"

section \<open>Configuration\<close>

record ForceReloadConfig =
  maxRetries :: int
  cfgStorageKey :: "string option"

text \<open>\<^verbatim>\<open>Partial<ForceReloadConfig>\<close>: \<open>None\<close> is a property that is not there.\<close>

record PartialForceReloadConfig =
  maxRetriesInit :: "int option"
  storageKeyInit :: "string option"

datatype forceReloadInit = Disabled | Object PartialForceReloadConfig

record SafeLazyConfigInit =
  forceReloadInit :: "forceReloadInit option"
  importRetriesInit :: "int option"

record SafeLazyConfig =
  forceReload :: ForceReloadConfig
  importRetries :: int

text \<open>The object spread writes the properties of its operand over \<^verbatim>\<open>maxRetries: 1\<close>.\<close>

definition createConfig :: "SafeLazyConfigInit \<Rightarrow> SafeLazyConfig" where
  "createConfig init =
     \<lparr>forceReload =
        (case forceReloadInit init of
           Some (Object p) \<Rightarrow>
             \<lparr>maxRetries = (case maxRetriesInit p of None \<Rightarrow> 1 | Some m \<Rightarrow> m),
              cfgStorageKey = storageKeyInit p\<rparr>
         | Some Disabled \<Rightarrow> \<lparr>maxRetries = 0, cfgStorageKey = None\<rparr>
         | None \<Rightarrow> \<lparr>maxRetries = 1, cfgStorageKey = None\<rparr>),
      importRetries = (case importRetriesInit init of Some n \<Rightarrow> n | None \<Rightarrow> 0)\<rparr>"

text \<open>The call with no argument: \<^verbatim>\<open>init = {}\<close>.\<close>

definition noInit :: SafeLazyConfigInit where
  "noInit = \<lparr>forceReloadInit = None, importRetriesInit = None\<rparr>"

section \<open>createSafeLazy\<close>

text \<open>What the closure \<^verbatim>\<open>safeLazy\<close> captures of \<^verbatim>\<open>createSafeLazy\<close>.\<close>

record factory =
  config :: SafeLazyConfig
  reloadStorage :: ForceReloadStorage

definition createSafeLazy :: "SafeLazyConfigInit \<Rightarrow> factory" where
  "createSafeLazy init =
     (let c = createConfig init
      in \<lparr>config = c, reloadStorage = new_ForceReloadStorage (cfgStorageKey (forceReload c))\<rparr>)"

text \<open>
  An import function: \<open>outcome f i\<close> is how its invocation number \<open>i\<close> (counted by
  \<open>calls\<close>) settles, \<open>Inl\<close> a rejection, and \<open>toString f\<close> is its source text.
\<close>

record ('e, 'c) importFunction =
  outcome :: "nat \<Rightarrow> 'e + 'c"
  toString :: string

text \<open>
  \<^verbatim>\<open>tryImport\<close>, with the captured variable \<^verbatim>\<open>retried\<close> passed in and returned.
\<close>

function tryImport ::
  "int \<Rightarrow> (nat \<Rightarrow> 'e + 'c) \<Rightarrow> int \<Rightarrow> 'e world \<Rightarrow> ('e + 'c) \<times> int \<times> 'e world" where
  "tryImport r f retried w =
     (case f (calls w) of
        Inr m \<Rightarrow> (Inr m, retried, w\<lparr>calls := Suc (calls w)\<rparr>)
      | Inl error \<Rightarrow>
          (if retried < r
           then tryImport r f (retried + 1)
                  (w\<lparr>calls := Suc (calls w), console := console w @ [Thrown error]\<rparr>)
           else (Inl error, retried,
                 w\<lparr>calls := Suc (calls w), console := console w @ [Thrown error]\<rparr>)))"
  by pat_completeness auto
termination
  by (relation "measure (\<lambda>(r, f, retried, w). nat (r - retried))") auto

declare tryImport.simps [simp del]

text \<open>What the wrapped loader resolves with: the module, or the component that renders nothing.\<close>

datatype 'c module = Module 'c | Placeholder

text \<open>The async function given to \<^verbatim>\<open>lazy\<close>; \<open>Inl\<close> is its rejection.\<close>

definition lazyLoader ::
  "factory \<Rightarrow> ('e, 'c) importFunction \<Rightarrow> int \<Rightarrow> 'e world \<Rightarrow> ('e + 'c module) \<times> int \<times> 'e world" where
  "lazyLoader env f retried w =
     (case tryImport (importRetries (config env)) (outcome f) retried w of
        (Inr component, retried1, w1) \<Rightarrow>
          (Inr (Module component), retried1,
           if maxRetries (forceReload (config env)) > 0
           then removeFunction (reloadStorage env) (toString f) w1 else w1)
      | (Inl error, retried1, w1) \<Rightarrow>
          (case getMap (reloadStorage env) w1 of (m, w2) \<Rightarrow>
             if numLess (case map_of m (toString f) of None \<Rightarrow> Finite 0 | Some n \<Rightarrow> n)
                  (maxRetries (forceReload (config env)))
             then (case addFunction (reloadStorage env) (toString f) w2 of w3 \<Rightarrow>
                     (Inr Placeholder, retried1, w3\<lparr>reloads := Suc (reloads w3)\<rparr>))
             else (Inl error, retried1, w2)))"

text \<open>
  \<^verbatim>\<open>safeLazy(importFunction)\<close> sets \<^verbatim>\<open>retried\<close> to 0, and React's \<^verbatim>\<open>lazy\<close> calls the
  function it was given once, when the component is first rendered.
\<close>

definition safeLazy :: "factory \<Rightarrow> ('e, 'c) importFunction \<Rightarrow> 'e world \<Rightarrow> ('e + 'c module) \<times> 'e world" where
  "safeLazy env f w = (case lazyLoader env f 0 w of (res, retried, w1) \<Rightarrow> (res, w1))"

text \<open>
  \<open>n\<close> page lifetimes one after the other, each one wrapping the import function and
  rendering the component once; the session storage lives on from one to the next.
\<close>

fun renders ::
  "nat \<Rightarrow> factory \<Rightarrow> ('e, 'c) importFunction \<Rightarrow> 'e world \<Rightarrow> ('e + 'c module) list \<times> 'e world" where
  "renders 0 env f w = ([], w)"
| "renders (Suc n) env f w =
     (case safeLazy env f w of (res, w1) \<Rightarrow>
        (case renders n env f w1 of (rs, w2) \<Rightarrow> (res # rs, w2)))"

text \<open>The count the reload decision reads for a key: 0 when the key is absent.\<close>

definition reloadCount :: "ForceReloadStorage \<Rightarrow> string \<Rightarrow> 'e world \<Rightarrow> number" where
  "reloadCount this k w =
     (case map_of (fst (getMap this w)) k of None \<Rightarrow> Finite 0 | Some n \<Rightarrow> n)"

section \<open>Sequences of ledger operations\<close>

datatype ledgerOp = Increment string | Remove string

fun applyOp :: "ForceReloadStorage \<Rightarrow> ledgerOp \<Rightarrow> 'e world \<Rightarrow> 'e world" where
  "applyOp this (Increment k) w = addFunction this k w"
| "applyOp this (Remove k) w = removeFunction this k w"

definition applyOps :: "ForceReloadStorage \<Rightarrow> ledgerOp list \<Rightarrow> 'e world \<Rightarrow> 'e world" where
  "applyOps this ops w = fold (applyOp this) ops w"

section \<open>The fixtures of the test suite\<close>

text \<open>A new session: the storage is empty, nothing was logged, reloaded or imported.\<close>

definition freshWorld :: "string world" where
  "freshWorld = \<lparr>sessionStorage = Map.empty, console = [], reloads = 0, calls = 0\<rparr>"

text \<open>\<^verbatim>\<open>vi.fn().mockRejectedValue(new Error('Failed to load component'))\<close>\<close>

definition alwaysRejects :: "(string, string) importFunction" where
  "alwaysRejects =
     \<lparr>outcome = (\<lambda>i. Inl ''Failed to load component''), toString = ''importFunction''\<rparr>"

text \<open>The mock that rejects once and resolves afterwards.\<close>

definition rejectsOnce :: "(string, string) importFunction" where
  "rejectsOnce =
     \<lparr>outcome = (\<lambda>i. if i = 0 then Inl ''Failed to load component'' else Inr ''Component''),
      toString = ''importFunction''\<rparr>"

section \<open>Reading back what the ledger wrote\<close>

text \<open>
A \<^verbatim>\<open>Map\<close> has distinct keys, so \<open>save\<close> followed by \<open>getMap\<close> gives the entries with a
  finite count back in the same order, and drops the others, which were written as
  \<^verbatim>\<open>null\<close>; \<open>getMap\<close> reads the storage only, and logs at most.
\<close>

lemma update_append_new: "k \<notin> fst ` set m \<Longrightarrow> AList.update k v m = m @ [(k, v)]"
  by (induction m) auto

lemma fold_update_append:
  "distinct (map fst (acc @ es)) \<Longrightarrow> fold (\<lambda>(k, v) m. AList.update k v m) es acc = acc @ es"
proof (induction es arbitrary: acc)
  case Nil
  then show ?case by simp
next
  case (Cons e es)
  obtain k v where e: "e = (k, v)" by (cases e)
  from Cons.prems have "k \<notin> fst ` set acc" by (auto simp: e)
  then have u: "AList.update k v acc = acc @ [(k, v)]" by (rule update_append_new)
  from Cons.prems have "distinct (map fst ((acc @ [(k, v)]) @ es))" by (simp add: e)
  then have "fold (\<lambda>(k, v) m. AList.update k v m) es (acc @ [(k, v)]) = (acc @ [(k, v)]) @ es"
    by (rule Cons.IH)
  then show ?case by (simp add: e u)
qed

lemma new_Map_id: "distinct (map fst m) \<Longrightarrow> new_Map m = m"
  using fold_update_append [of "[]" m] by (simp add: new_Map_def)

lemma fold_update_distinct:
  "distinct (map fst acc) \<Longrightarrow> distinct (map fst (fold (\<lambda>(k, v) m. AList.update k v m) es acc))"
  by (induction es arbitrary: acc) (auto simp: distinct_update)

lemma new_Map_distinct: "distinct (map fst (new_Map es))"
  by (simp add: new_Map_def fold_update_distinct)

lemma fold_update_map_of:
  "map_of (fold (\<lambda>(k, v) m. AList.update k v m) es acc) = map_of acc ++ map_of (rev es)"
  by (induction es arbitrary: acc) (auto simp: update_conv' map_add_upd_left fun_eq_iff map_add_def split: option.splits)

lemma new_Map_map_of: "map_of (new_Map es) = map_of (rev es)"
  by (simp add: new_Map_def fold_update_map_of)

lemma map_filter_entry_encode:
  "List.map_filter entry (map (written \<circ> (\<lambda>(k, n). JArr [JStr k, JNum n])) m) =
   filter (\<lambda>(k, n). isFinite n) m"
  by (induction m) auto

lemma getMap_save:
  "distinct (map fst m) \<Longrightarrow>
   getMap this (save this m w) = (filter (\<lambda>(k, n). isFinite n) m, save this m w)"
  by (simp add: getMap_def save_def JSON_stringify_def map_filter_entry_encode new_Map_id
        distinct_map_filter)

lemma map_of_filter_finite:
  "map_of (filter (\<lambda>(k, n). isFinite n) m) k =
     (case map_of m k of None \<Rightarrow> None | Some n \<Rightarrow> if isFinite n then Some n else None)"
  if "distinct (map fst m)"
  using that by (induction m) (auto simp: map_of_eq_None_iff image_iff split: option.splits)

lemma filter_finite_id:
  "\<forall>(k, n) \<in> set m. isFinite n \<Longrightarrow> filter (\<lambda>(k, n). isFinite n) m = m"
  by (induction m) auto

lemma getMap_distinct: "distinct (map fst (fst (getMap this w)))"
  by (auto simp: getMap_def new_Map_distinct split: option.splits sum.splits json.splits)

lemma getMap_storage [simp]: "sessionStorage (snd (getMap this w)) = sessionStorage w"
  and getMap_reloads [simp]: "reloads (snd (getMap this w)) = reloads w"
  and getMap_calls [simp]: "calls (snd (getMap this w)) = calls w"
  by (auto simp: getMap_def split: option.splits sum.splits)

lemma getMap_fst_cong:
  "sessionStorage w (storageKey this) = sessionStorage w' (storageKey this) \<Longrightarrow>
   fst (getMap this w) = fst (getMap this w')"
  by (auto simp: getMap_def split: option.splits sum.splits)

lemma getMap_idem [simp]: "fst (getMap this (snd (getMap this w))) = fst (getMap this w)"
  by (rule getMap_fst_cong) simp

lemma addFunction_read:
  "fst (getMap this (addFunction this k w)) =
     filter (\<lambda>(k, n). isFinite n)
       (AList.update k (plus1 (reloadCount this k w)) (fst (getMap this w)))"
  by (cases "getMap this w")
     (use getMap_distinct [of this w] in \<open>simp add: addFunction_def reloadCount_def getMap_save distinct_update\<close>)

lemma removeFunction_read:
  "fst (getMap this (removeFunction this k w)) =
     filter (\<lambda>(k, n). isFinite n) (AList.delete k (fst (getMap this w)))"
  by (cases "getMap this w")
     (use getMap_distinct [of this w] in \<open>simp add: removeFunction_def getMap_save distinct_delete\<close>)

lemma addFunction_lookup:
  "map_of (fst (getMap this (addFunction this k w))) k' =
     (if k' = k
      then (if isFinite (plus1 (reloadCount this k w)) then Some (plus1 (reloadCount this k w)) else None)
      else (case map_of (fst (getMap this w)) k' of
              None \<Rightarrow> None
            | Some n \<Rightarrow> if isFinite n then Some n else None))"
  using getMap_distinct [of this w]
  by (simp add: addFunction_read map_of_filter_finite distinct_update update_conv')

lemma removeFunction_lookup:
  "map_of (fst (getMap this (removeFunction this k w))) k' =
     (if k' = k then None
      else (case map_of (fst (getMap this w)) k' of
              None \<Rightarrow> None
            | Some n \<Rightarrow> if isFinite n then Some n else None))"
  using getMap_distinct [of this w]
  by (simp add: removeFunction_read map_of_filter_finite distinct_delete delete_conv')

lemma set_update_subset: "set (AList.update k v m) \<subseteq> insert (k, v) (set m)"
  by (induction m) auto

lemma set_delete_subset: "set (AList.delete k m) \<subseteq> set m"
  by (auto simp: AList.delete_eq)

lemma plus1_bound: "\<not> numLess n b \<Longrightarrow> \<not> numLess (plus1 n) b"
  by (cases n) auto

lemma reloadCount_bound:
  assumes "\<forall>(k, n) \<in> set (fst (getMap this w)). \<not> numLess n b" "b \<le> 1" "0 \<le> b"
  shows "\<not> numLess (plus1 (reloadCount this k w)) b"
proof (cases "map_of (fst (getMap this w)) k")
  case None
  then show ?thesis using assms by (simp add: reloadCount_def)
next
  case (Some n)
  then have "(k, n) \<in> set (fst (getMap this w))" by (rule map_of_SomeD)
  with assms have "\<not> numLess n b" by auto
  then have "\<not> numLess (plus1 n) b" by (rule plus1_bound)
  with Some show ?thesis by (simp add: reloadCount_def)
qed

lemma applyOp_bound:
  assumes "\<forall>(k, n) \<in> set (fst (getMap this w)). \<not> numLess n b" "b \<le> 1" "0 \<le> b"
  shows "\<forall>(k, n) \<in> set (fst (getMap this (applyOp this op w))). \<not> numLess n b"
proof (cases op)
  case (Increment k)
  have "set (fst (getMap this (addFunction this k w)))
          \<subseteq> insert (k, plus1 (reloadCount this k w)) (set (fst (getMap this w)))"
    using set_update_subset [of k "plus1 (reloadCount this k w)" "fst (getMap this w)"]
    by (auto simp: addFunction_read)
  moreover have "\<not> numLess (plus1 (reloadCount this k w)) b" using assms by (rule reloadCount_bound)
  ultimately show ?thesis using assms(1) by (auto simp: Increment)
next
  case (Remove k)
  have "set (fst (getMap this (removeFunction this k w))) \<subseteq> set (fst (getMap this w))"
    using set_delete_subset [of k "fst (getMap this w)"]
    by (auto simp: removeFunction_read)
  then show ?thesis using assms(1) by (auto simp: Remove)
qed

lemma applyOps_bound:
  assumes "\<forall>(k, n) \<in> set (fst (getMap this w)). \<not> numLess n b" "b \<le> 1" "0 \<le> b"
  shows "\<forall>(k, n) \<in> set (fst (getMap this (applyOps this ops w))). \<not> numLess n b"
  using assms(1) unfolding applyOps_def
proof (induction ops arbitrary: w)
  case Nil
  then show ?case by simp
next
  case (Cons op ops)
  from Cons.prems assms(2,3)
  have "\<forall>(k, n) \<in> set (fst (getMap this (applyOp this op w))). \<not> numLess n b"
    by (rule applyOp_bound)
  then show ?case using Cons.IH by simp
qed

lemma entry_Some: "entry v = Some (k, n) \<longleftrightarrow> (\<exists>rest. v = JArr (JStr k # JNum n # rest))"
  by (cases "(v)" rule: entry.cases) auto

lemma set_map_filter_entry:
  "set (List.map_filter entry vs) = {(k, n). \<exists>rest. JArr (JStr k # JNum n # rest) \<in> set vs}"
  by (auto simp: List.map_filter_def entry_Some image_iff) (metis entry_Some option.sel)+

lemma new_Map_set: "set (new_Map es) \<subseteq> set es"
proof -
  have "set (fold (\<lambda>(k, v) m. AList.update k v m) es acc) \<subseteq> set acc \<union> set es" for acc
  proof (induction es arbitrary: acc)
    case Nil
    then show ?case by simp
  next
    case (Cons e es)
    obtain k v where e: "e = (k, v)" by (cases e)
    have "set (fold (\<lambda>(k, v) m. AList.update k v m) es (AList.update k v acc))
            \<subseteq> set (AList.update k v acc) \<union> set es"
      by (rule Cons.IH)
    also have "\<dots> \<subseteq> set acc \<union> set (e # es)"
      using set_update_subset [of k v acc] by (auto simp: e)
    finally show ?case by (simp add: e)
  qed
  from this [of "[]"] show ?thesis by (simp add: new_Map_def)
qed

lemma new_Map_dom: "fst ` set (new_Map es) = fst ` set es"
proof -
  have "dom (map_of (new_Map es)) = dom (map_of (rev es))" by (simp add: new_Map_map_of)
  then show ?thesis by (simp add: dom_map_of_conv_image_fst)
qed

section \<open>The retries and the reload decision\<close>

text \<open>
\<open>tryImport\<close> touches neither the storage nor the reload counter, and what it returns is
  how the last invocation of the import function settled.
\<close>

lemma tryImport_frame:
  "sessionStorage (snd (snd (tryImport r f retried w))) = sessionStorage w \<and>
   reloads (snd (snd (tryImport r f retried w))) = reloads w"
proof (induction r f retried w rule: tryImport.induct)
  case (1 r f retried w)
  show ?case
  proof (cases "f (calls w)")
    case (Inr m)
    then show ?thesis by (subst (1 2) tryImport.simps) simp
  next
    case (Inl e)
    show ?thesis
    proof (cases "retried < r")
      case True
      with Inl 1 show ?thesis by (subst (1 2) tryImport.simps) simp
    next
      case False
      with Inl show ?thesis by (subst (1 2) tryImport.simps) simp
    qed
  qed
qed

lemma tryImport_count:
  "retried \<le> r \<Longrightarrow> n = nat (r - retried) \<Longrightarrow> \<forall>i<n. isl (f (calls w + i)) \<Longrightarrow>
   fst (tryImport r f retried w) = f (calls w + n) \<and>
   calls (snd (snd (tryImport r f retried w))) = calls w + n + 1"
proof (induction n arbitrary: retried w)
  case 0
  then have nl: "\<not> retried < r" by simp
  show ?case
    by (cases "f (calls w)") (use nl in \<open>simp_all add: tryImport.simps [of r f retried w]\<close>)
next
  case (Suc n)
  then have lt: "retried < r" by simp
  from Suc.prems obtain e where e: "f (calls w) = Inl e"
    by (cases "f (calls w)") (auto dest: spec [of _ 0])
  let ?w = "w\<lparr>calls := Suc (calls w), console := console w @ [Thrown e]\<rparr>"
  have step: "tryImport r f retried w = tryImport r f (retried + 1) ?w"
    using lt e by (simp add: tryImport.simps [of r f retried w])
  have a: "retried + 1 \<le> r" using lt by simp
  have b: "n = nat (r - (retried + 1))" using Suc.prems by simp
  have c: "\<forall>i<n. isl (f (calls ?w + i))"
  proof (intro allI impI)
    fix i assume "i < n"
    then have "Suc i < Suc n" by simp
    with Suc.prems(3) have "isl (f (calls w + Suc i))" by blast
    then show "isl (f (calls ?w + i))" by simp
  qed
  from Suc.IH [OF a b c] show ?case by (simp add: step)
qed

lemma tryImport_last:
  "fst (tryImport r g k w) = g (calls (snd (snd (tryImport r g k w))) - 1)"
proof (induction r g k w rule: tryImport.induct)
  case (1 r f retried w)
  show ?case
  proof (cases "f (calls w)")
    case (Inr m)
    then show ?thesis by (simp add: tryImport.simps [of r f retried w])
  next
    case (Inl e)
    show ?thesis
    proof (cases "retried < r")
      case True
      with Inl 1 show ?thesis by (simp add: tryImport.simps [of r f retried w])
    next
      case False
      with Inl show ?thesis by (simp add: tryImport.simps [of r f retried w])
    qed
  qed
qed

lemma reloadCount_cong:
  "sessionStorage w (storageKey this) = sessionStorage w' (storageKey this) \<Longrightarrow>
   reloadCount this k w = reloadCount this k w'"
  by (simp add: reloadCount_def getMap_fst_cong [of w this w'])

lemma save_frame [simp]: "reloads (save this m w) = reloads w" "calls (save this m w) = calls w"
  by (simp_all add: save_def)

lemma addFunction_reloads [simp]: "reloads (addFunction this k w) = reloads w"
  by (cases "getMap this w") (use getMap_reloads [of this w] in \<open>simp add: addFunction_def\<close>)

lemma removeFunction_reloads [simp]: "reloads (removeFunction this k w) = reloads w"
  by (cases "getMap this w") (use getMap_reloads [of this w] in \<open>simp add: removeFunction_def\<close>)

lemma addFunction_cong:
  "sessionStorage w = sessionStorage w' \<Longrightarrow>
   sessionStorage (addFunction this k w) = sessionStorage (addFunction this k w')"
  by (cases "getMap this w"; cases "getMap this w'")
     (use getMap_fst_cong [of w this w'] getMap_storage [of this w] getMap_storage [of this w']
      in \<open>simp add: addFunction_def save_def\<close>)

lemma removeFunction_cong:
  "sessionStorage w = sessionStorage w' \<Longrightarrow>
   sessionStorage (removeFunction this k w) = sessionStorage (removeFunction this k w')"
  by (cases "getMap this w"; cases "getMap this w'")
     (use getMap_fst_cong [of w this w'] getMap_storage [of this w] getMap_storage [of this w']
      in \<open>simp add: removeFunction_def save_def\<close>)

lemma safeLazy_rejected:
  assumes "fst (tryImport (importRetries (config env)) (outcome f) 0 w) = Inl e"
  shows "numLess (reloadCount (reloadStorage env) (toString f) w) (maxRetries (forceReload (config env))) \<Longrightarrow>
           fst (safeLazy env f w) = Inr Placeholder \<and>
           reloads (snd (safeLazy env f w)) = Suc (reloads w) \<and>
           sessionStorage (snd (safeLazy env f w)) =
             sessionStorage (addFunction (reloadStorage env) (toString f) w)"
    and "\<not> numLess (reloadCount (reloadStorage env) (toString f) w) (maxRetries (forceReload (config env))) \<Longrightarrow>
           fst (safeLazy env f w) = Inl e \<and>
           reloads (snd (safeLazy env f w)) = reloads w \<and>
           sessionStorage (snd (safeLazy env f w)) = sessionStorage w"
proof -
  let ?rs = "reloadStorage env"
  obtain k w1 where t: "tryImport (importRetries (config env)) (outcome f) 0 w = (Inl e, k, w1)"
    using assms by (cases "tryImport (importRetries (config env)) (outcome f) 0 w") simp
  have w1: "sessionStorage w1 = sessionStorage w" "reloads w1 = reloads w"
    using tryImport_frame [of "importRetries (config env)" "outcome f" 0 w] by (simp_all add: t)
  obtain m w2 where g: "getMap ?rs w1 = (m, w2)" by (cases "getMap ?rs w1")
  have w2: "sessionStorage w2 = sessionStorage w" "reloads w2 = reloads w"
    using getMap_storage [of ?rs w1] getMap_reloads [of ?rs w1] by (simp_all add: g w1)
  have c: "(case map_of m (toString f) of None \<Rightarrow> Finite 0 | Some n \<Rightarrow> n) = reloadCount ?rs (toString f) w"
    using reloadCount_cong [of w1 ?rs w "toString f"] by (simp add: reloadCount_def g w1)
  {
    assume lt: "numLess (reloadCount ?rs (toString f) w) (maxRetries (forceReload (config env)))"
    have "safeLazy env f w =
            (Inr Placeholder, (addFunction ?rs (toString f) w2)
               \<lparr>reloads := Suc (reloads (addFunction ?rs (toString f) w2))\<rparr>)"
      using lt by (simp add: safeLazy_def lazyLoader_def t g c)
    then show "fst (safeLazy env f w) = Inr Placeholder \<and>
           reloads (snd (safeLazy env f w)) = Suc (reloads w) \<and>
           sessionStorage (snd (safeLazy env f w)) = sessionStorage (addFunction ?rs (toString f) w)"
      using addFunction_cong [of w2 w ?rs "toString f"] by (simp add: w2)
  }
  {
    assume ge: "\<not> numLess (reloadCount ?rs (toString f) w) (maxRetries (forceReload (config env)))"
    have "safeLazy env f w = (Inl e, w2)"
      using ge by (simp add: safeLazy_def lazyLoader_def t g c)
    then show "fst (safeLazy env f w) = Inl e \<and>
           reloads (snd (safeLazy env f w)) = reloads w \<and>
           sessionStorage (snd (safeLazy env f w)) = sessionStorage w"
      by (simp add: w2)
  }
qed

lemma safeLazy_resolved:
  assumes "fst (tryImport (importRetries (config env)) (outcome f) 0 w) = Inr c"
  shows "fst (safeLazy env f w) = Inr (Module c) \<and>
         reloads (snd (safeLazy env f w)) = reloads w \<and>
         sessionStorage (snd (safeLazy env f w)) =
           (if maxRetries (forceReload (config env)) > 0
            then sessionStorage (removeFunction (reloadStorage env) (toString f) w)
            else sessionStorage w)"
proof -
  let ?rs = "reloadStorage env"
  obtain k w1 where t: "tryImport (importRetries (config env)) (outcome f) 0 w = (Inr c, k, w1)"
    using assms by (cases "tryImport (importRetries (config env)) (outcome f) 0 w") simp
  have w1: "sessionStorage w1 = sessionStorage w" "reloads w1 = reloads w"
    using tryImport_frame [of "importRetries (config env)" "outcome f" 0 w] by (simp_all add: t)
  have "safeLazy env f w =
          (Inr (Module c),
           if maxRetries (forceReload (config env)) > 0
           then removeFunction ?rs (toString f) w1 else w1)"
    by (simp add: safeLazy_def lazyLoader_def t)
  then show ?thesis
    using removeFunction_cong [of w1 w ?rs "toString f"] by (simp add: w1)
qed

lemma safeLazy_calls:
  "calls (snd (safeLazy env f w)) =
   calls (snd (snd (tryImport (importRetries (config env)) (outcome f) 0 w)))"
proof (cases "tryImport (importRetries (config env)) (outcome f) 0 w")
  case (fields res k w1)
  obtain m w2 where g: "getMap (reloadStorage env) w1 = (m, w2)"
    by (cases "getMap (reloadStorage env) w1")
  have w2: "calls w2 = calls w1"
    using getMap_calls [of "reloadStorage env" w1] by (simp add: g)
  have ac: "\<And>k w. calls (addFunction (reloadStorage env) k w) = calls w"
    subgoal for k w
      by (cases "getMap (reloadStorage env) w")
         (use getMap_calls [of "reloadStorage env" w] in \<open>simp add: addFunction_def\<close>)
    done
  have rc: "\<And>k w. calls (removeFunction (reloadStorage env) k w) = calls w"
    subgoal for k w
      by (cases "getMap (reloadStorage env) w")
         (use getMap_calls [of "reloadStorage env" w] in \<open>simp add: removeFunction_def\<close>)
    done
  show ?thesis
    by (cases res) (simp_all add: safeLazy_def lazyLoader_def fields g w2 ac rc)
qed

lemma renders_append:
  "renders (a + b) env f w =
     (fst (renders a env f w) @ fst (renders b env f (snd (renders a env f w))),
      snd (renders b env f (snd (renders a env f w))))"
  by (induction a arbitrary: w) (auto split: prod.splits)

lemma tryImport_rejects:
  "\<forall>i. isl (g i) \<Longrightarrow> \<exists>e. fst (tryImport r g k w) = Inl e"
  by (simp add: tryImport_last) (metis isl_def)

lemma safeLazy_reloadCount:
  assumes "sessionStorage (snd (safeLazy env f w)) =
             sessionStorage (addFunction (reloadStorage env) (toString f) w)"
    and "reloadCount (reloadStorage env) (toString f) w = Finite x"
  shows "reloadCount (reloadStorage env) (toString f) (snd (safeLazy env f w)) = Finite (x + 1)"
proof -
  have "reloadCount (reloadStorage env) (toString f) (snd (safeLazy env f w)) =
        reloadCount (reloadStorage env) (toString f)
          (addFunction (reloadStorage env) (toString f) w)"
    by (rule reloadCount_cong) (simp add: assms)
  also have "\<dots> = Finite (x + 1)"
    by (simp add: reloadCount_def [of _ _ "addFunction _ _ _"] addFunction_lookup assms(2))
  finally show ?thesis .
qed

lemma renders_reloading:
  assumes fails: "\<forall>i. isl (outcome f i)"
  shows "reloadCount (reloadStorage env) (toString f) w = Finite (of_int c) \<Longrightarrow>
         c + int n \<le> maxRetries (forceReload (config env)) \<Longrightarrow>
         fst (renders n env f w) = replicate n (Inr Placeholder) \<and>
         reloads (snd (renders n env f w)) = reloads w + n \<and>
         reloadCount (reloadStorage env) (toString f) (snd (renders n env f w)) =
           Finite (of_int (c + int n))"
proof (induction n arbitrary: w c)
  case 0
  then show ?case by simp
next
  case (Suc n)
  let ?w1 = "snd (safeLazy env f w)"
  from fails obtain e where e: "fst (tryImport (importRetries (config env)) (outcome f) 0 w) = Inl e"
    using tryImport_rejects by blast
  from Suc.prems have lt: "numLess (reloadCount (reloadStorage env) (toString f) w)
                             (maxRetries (forceReload (config env)))" by simp
  note step = safeLazy_rejected(1) [OF e lt]
  have "reloadCount (reloadStorage env) (toString f) ?w1 = Finite (of_int c + 1)"
    using step Suc.prems(1) by (intro safeLazy_reloadCount) simp_all
  then have c1: "reloadCount (reloadStorage env) (toString f) ?w1 = Finite (of_int (c + 1))"
    by simp
  have "c + 1 + int n \<le> maxRetries (forceReload (config env))"
    using Suc.prems by simp
  from Suc.IH [OF c1 this] step show ?case
    by (simp add: split_beta add.commute add.left_commute)
qed

lemma renders_exhausted:
  assumes fails: "\<forall>i. isl (outcome f i)"
  shows "\<not> numLess (reloadCount (reloadStorage env) (toString f) w)
             (maxRetries (forceReload (config env))) \<Longrightarrow>
         reloads (snd (renders n env f w)) = reloads w \<and>
         sessionStorage (snd (renders n env f w)) = sessionStorage w"
proof (induction n arbitrary: w)
  case 0
  then show ?case by simp
next
  case (Suc n)
  let ?w1 = "snd (safeLazy env f w)"
  from fails obtain e where e: "fst (tryImport (importRetries (config env)) (outcome f) 0 w) = Inl e"
    using tryImport_rejects by blast
  note step = safeLazy_rejected(2) [OF e Suc.prems]
  have "reloadCount (reloadStorage env) (toString f) ?w1 =
        reloadCount (reloadStorage env) (toString f) w"
    by (rule reloadCount_cong) (simp add: step)
  with Suc.prems have "\<not> numLess (reloadCount (reloadStorage env) (toString f) ?w1)
             (maxRetries (forceReload (config env)))" by simp
  from Suc.IH [OF this] step show ?case
    by (simp add: split_beta)
qed

lemma lazyLoader_no_budget:
  assumes "maxRetries (forceReload (config env)) \<le> 0"
    and "\<not> numLess (reloadCount (reloadStorage env) (toString f) w)
               (maxRetries (forceReload (config env)))"
  shows "sessionStorage (snd (snd (lazyLoader env f k w))) = sessionStorage w \<and>
         reloads (snd (snd (lazyLoader env f k w))) = reloads w \<and>
         fst (lazyLoader env f k w) \<noteq> Inr Placeholder \<and>
         (\<forall>e. fst (tryImport (importRetries (config env)) (outcome f) k w) = Inl e \<longrightarrow>
              fst (lazyLoader env f k w) = Inl e)"
proof (cases "tryImport (importRetries (config env)) (outcome f) k w")
  case (fields res k1 w1)
  have w1: "sessionStorage w1 = sessionStorage w" "reloads w1 = reloads w"
    using tryImport_frame [of "importRetries (config env)" "outcome f" k w] by (simp_all add: fields)
  show ?thesis
  proof (cases res)
    case (Inr c)
    then show ?thesis using assms(1) by (simp add: lazyLoader_def fields w1)
  next
    case (Inl e)
    obtain m w2 where g: "getMap (reloadStorage env) w1 = (m, w2)"
      by (cases "getMap (reloadStorage env) w1")
    have w2: "sessionStorage w2 = sessionStorage w" "reloads w2 = reloads w"
      using getMap_storage [of "reloadStorage env" w1] getMap_reloads [of "reloadStorage env" w1]
      by (simp_all add: g w1)
    have c: "(case map_of m (toString f) of None \<Rightarrow> Finite 0 | Some n \<Rightarrow> n) =
             reloadCount (reloadStorage env) (toString f) w"
      using reloadCount_cong [of w1 "reloadStorage env" w "toString f"]
      by (simp add: reloadCount_def g w1)
    show ?thesis using assms(2) by (simp add: lazyLoader_def fields Inl g c w2)
  qed
qed

lemma renders_no_budget:
  assumes "maxRetries (forceReload (config env)) \<le> 0"
  shows "\<not> numLess (reloadCount (reloadStorage env) (toString f) w)
             (maxRetries (forceReload (config env))) \<Longrightarrow>
         sessionStorage (snd (renders n env f w)) = sessionStorage w \<and>
         reloads (snd (renders n env f w)) = reloads w \<and>
         Inr Placeholder \<notin> set (fst (renders n env f w))"
proof (induction n arbitrary: w)
  case 0
  then show ?case by simp
next
  case (Suc n)
  note step = lazyLoader_no_budget [OF assms Suc.prems, of 0]
  let ?w1 = "snd (safeLazy env f w)"
  have w1: "sessionStorage ?w1 = sessionStorage w" "reloads ?w1 = reloads w"
    "fst (safeLazy env f w) \<noteq> Inr Placeholder"
    using step by (simp_all add: safeLazy_def split_beta)
  have "reloadCount (reloadStorage env) (toString f) ?w1 =
        reloadCount (reloadStorage env) (toString f) w"
    by (rule reloadCount_cong) (simp add: w1)
  with Suc.prems have "\<not> numLess (reloadCount (reloadStorage env) (toString f) ?w1)
             (maxRetries (forceReload (config env)))" by simp
  from Suc.IH [OF this] w1 show ?case by (auto simp: split_beta)
qed

section \<open>The properties of the specification\<close>

text \<open>
C1. Let \<open>maxRetries\<close> be \<open>m \<ge> 0\<close>, let every invocation of the import function reject,
  and let no reload be on record for its source text (the count read for it is 0). Then each
  of the first \<open>m\<close> renders resolves with the placeholder and reloads the page, so that
  after \<open>k \<le> m\<close> of them the page was reloaded \<open>k\<close> times and the count of the key is
  \<open>k\<close>. The render after the \<open>m\<close>-th rejects with the rejection of its last import
  attempt, reloads nothing and leaves the storage as it is. Whatever the number \<open>n\<close> of
  renders, the page is reloaded \<open>min n m\<close> times: \<open>m\<close> times and never more.
\<close>

theorem reload_budget:
  assumes m: "maxRetries (forceReload (config env)) = int m"
    and fails: "\<forall>i. isl (outcome f i)"
    and fresh: "reloadCount (reloadStorage env) (toString f) w = Finite 0"
  shows "(\<forall>k\<le>m. fst (renders k env f w) = replicate k (Inr Placeholder) \<and>
                 reloads (snd (renders k env f w)) = reloads w + k \<and>
                 reloadCount (reloadStorage env) (toString f) (snd (renders k env f w)) =
                   Finite (of_nat k)) \<and>
         (\<exists>e. fst (safeLazy env f (snd (renders m env f w))) = Inl e \<and>
              outcome f (calls (snd (safeLazy env f (snd (renders m env f w)))) - 1) = Inl e) \<and>
         reloads (snd (safeLazy env f (snd (renders m env f w)))) = reloads w + m \<and>
         sessionStorage (snd (safeLazy env f (snd (renders m env f w)))) =
           sessionStorage (snd (renders m env f w)) \<and>
         (\<forall>n. reloads (snd (renders n env f w)) = reloads w + min n m)"
proof -
  let ?rs = "reloadStorage env" and ?fs = "toString f"
  have fresh': "reloadCount ?rs ?fs w = Finite (of_int 0)" by (simp add: fresh)
  have upto: "fst (renders k env f w) = replicate k (Inr Placeholder) \<and>
              reloads (snd (renders k env f w)) = reloads w + k \<and>
              reloadCount ?rs ?fs (snd (renders k env f w)) = Finite (of_nat k)" if "k \<le> m" for k
    using renders_reloading [OF fails fresh', of k] that by (simp add: m)
  let ?wm = "snd (renders m env f w)"
  have cm: "reloadCount ?rs ?fs ?wm = Finite (of_nat m)" and rm: "reloads ?wm = reloads w + m"
    using upto [of m] by simp_all
  from fails obtain e where e: "fst (tryImport (importRetries (config env)) (outcome f) 0 ?wm) = Inl e"
    using tryImport_rejects by blast
  have ge: "\<not> numLess (reloadCount ?rs ?fs ?wm) (maxRetries (forceReload (config env)))"
    by (simp add: cm m)
  note last = safeLazy_rejected(2) [OF e ge]
  have orig: "outcome f (calls (snd (safeLazy env f ?wm)) - 1) = Inl e"
    using e tryImport_last [of "importRetries (config env)" "outcome f" 0 ?wm]
    by (simp add: safeLazy_calls)
  have total: "reloads (snd (renders n env f w)) = reloads w + min n m" for n
  proof (cases "n \<le> m")
    case True
    with upto [of n] show ?thesis by (simp add: min_def)
  next
    case False
    then obtain d where n: "n = m + d" using le_Suc_ex [of m n] by auto
    from renders_exhausted [OF fails ge, of d]
    have "reloads (snd (renders d env f ?wm)) = reloads ?wm" by simp
    then show ?thesis by (simp add: n renders_append rm)
  qed
  from upto last orig rm total show ?thesis by auto
qed

theorem reload_budget_witness:
  "maxRetries (forceReload (config (createSafeLazy
      \<lparr>forceReloadInit = Some (Object \<lparr>maxRetriesInit = Some 2, storageKeyInit = Some ''customKey''\<rparr>),
       importRetriesInit = None\<rparr>))) = int 2 \<and>
   reloadCount (reloadStorage (createSafeLazy
      \<lparr>forceReloadInit = Some (Object \<lparr>maxRetriesInit = Some 2, storageKeyInit = Some ''customKey''\<rparr>),
       importRetriesInit = None\<rparr>)) (toString alwaysRejects) freshWorld = Finite 0 \<and>
   reloads (snd (renders 2 (createSafeLazy
      \<lparr>forceReloadInit = Some (Object \<lparr>maxRetriesInit = Some 2, storageKeyInit = Some ''customKey''\<rparr>),
       importRetriesInit = None\<rparr>) alwaysRejects freshWorld)) = 2 \<and>
   fst (safeLazy (createSafeLazy
      \<lparr>forceReloadInit = Some (Object \<lparr>maxRetriesInit = Some 2, storageKeyInit = Some ''customKey''\<rparr>),
       importRetriesInit = None\<rparr>) alwaysRejects
      (snd (renders 2 (createSafeLazy
      \<lparr>forceReloadInit = Some (Object \<lparr>maxRetriesInit = Some 2, storageKeyInit = Some ''customKey''\<rparr>),
       importRetriesInit = None\<rparr>) alwaysRejects freshWorld))) = Inl ''Failed to load component''"
proof -
  let ?env = "createSafeLazy
      \<lparr>forceReloadInit = Some (Object \<lparr>maxRetriesInit = Some 2, storageKeyInit = Some ''customKey''\<rparr>),
       importRetriesInit = None\<rparr>"
  have m: "maxRetries (forceReload (config ?env)) = int 2"
    by (simp add: createSafeLazy_def createConfig_def)
  have fails: "\<forall>i. isl (outcome alwaysRejects i)"
    by (simp add: alwaysRejects_def)
  have fresh: "reloadCount (reloadStorage ?env) (toString alwaysRejects) freshWorld = Finite 0"
    by (simp add: reloadCount_def getMap_def freshWorld_def new_Map_def)
  have out: "outcome alwaysRejects i = Inl ''Failed to load component''" for i
    by (simp add: alwaysRejects_def)
  note b = reload_budget [OF m fails fresh]
  from b have "reloads (snd (renders 2 ?env alwaysRejects freshWorld)) = reloads freshWorld + 2"
    by simp
  then have two: "reloads (snd (renders 2 ?env alwaysRejects freshWorld)) = 2"
    by (simp add: freshWorld_def)
  from b obtain e where
    "fst (safeLazy ?env alwaysRejects (snd (renders 2 ?env alwaysRejects freshWorld))) = Inl e"
    "outcome alwaysRejects
       (calls (snd (safeLazy ?env alwaysRejects (snd (renders 2 ?env alwaysRejects freshWorld)))) - 1) =
     Inl e"
    by blast
  then have "fst (safeLazy ?env alwaysRejects (snd (renders 2 ?env alwaysRejects freshWorld))) =
               Inl ''Failed to load component''"
    by (simp add: out)
  with m fresh two show ?thesis by simp
qed

text \<open>
C2. Let \<open>importRetries\<close> be \<open>r \<ge> 0\<close> and let the next \<open>r\<close> invocations of the import
  function reject. Then \<open>tryImport\<close> invokes the import function exactly \<open>r + 1\<close> times
  and settles as invocation \<open>r + 1\<close> does, and so does the wrapped loader: if that
  invocation resolves, the wrapped loader resolves with its module; if it rejects, the
  retries are exhausted and the outcome is the reload decision, the placeholder when the
  count of the key is below \<open>maxRetries\<close> and that rejection otherwise.
\<close>

theorem tryImport_invocations:
  assumes r: "importRetries (config env) = int r"
    and fails: "\<forall>i<r. isl (outcome f (calls w + i))"
  shows "calls (snd (snd (tryImport (importRetries (config env)) (outcome f) 0 w))) = calls w + (r + 1) \<and>
         fst (tryImport (importRetries (config env)) (outcome f) 0 w) = outcome f (calls w + r) \<and>
         calls (snd (safeLazy env f w)) = calls w + (r + 1) \<and>
         (\<forall>c. outcome f (calls w + r) = Inr c \<longrightarrow> fst (safeLazy env f w) = Inr (Module c)) \<and>
         (\<forall>e. outcome f (calls w + r) = Inl e \<longrightarrow>
            fst (safeLazy env f w) =
              (if numLess (reloadCount (reloadStorage env) (toString f) w)
                    (maxRetries (forceReload (config env)))
               then Inr Placeholder else Inl e))"
proof -
  have t: "fst (tryImport (int r) (outcome f) 0 w) = outcome f (calls w + r) \<and>
           calls (snd (snd (tryImport (int r) (outcome f) 0 w))) = calls w + r + 1"
    using fails by (intro tryImport_count) simp_all
  have ok: "fst (safeLazy env f w) = Inr (Module c)" if "outcome f (calls w + r) = Inr c" for c
    using safeLazy_resolved [of env f w c] t that by (simp add: r)
  have ko: "fst (safeLazy env f w) =
              (if numLess (reloadCount (reloadStorage env) (toString f) w)
                    (maxRetries (forceReload (config env)))
               then Inr Placeholder else Inl e)" if "outcome f (calls w + r) = Inl e" for e
    using safeLazy_rejected [of env f w e] t that by (simp add: r)
  from t ok ko show ?thesis by (simp add: r safeLazy_calls)
qed

theorem tryImport_invocations_witness:
  "importRetries (config (createSafeLazy
      \<lparr>forceReloadInit = Some Disabled, importRetriesInit = Some 1\<rparr>)) = int 1 \<and>
   isl (outcome rejectsOnce (calls freshWorld + 0)) \<and>
   calls (snd (safeLazy (createSafeLazy
      \<lparr>forceReloadInit = Some Disabled, importRetriesInit = Some 1\<rparr>) rejectsOnce freshWorld)) = 2 \<and>
   fst (safeLazy (createSafeLazy
      \<lparr>forceReloadInit = Some Disabled, importRetriesInit = Some 1\<rparr>) rejectsOnce freshWorld) =
     Inr (Module ''Component'')"
proof -
  let ?env = "createSafeLazy \<lparr>forceReloadInit = Some Disabled, importRetriesInit = Some 1\<rparr>"
  have r: "importRetries (config ?env) = int 1"
    by (simp add: createSafeLazy_def createConfig_def)
  have fails: "\<forall>i<1. isl (outcome rejectsOnce (calls freshWorld + i))"
    by (simp add: rejectsOnce_def freshWorld_def)
  have ok: "outcome rejectsOnce (calls freshWorld + 1) = Inr ''Component''"
    by (simp add: rejectsOnce_def freshWorld_def)
  from tryImport_invocations [OF r fails] r fails ok show ?thesis
    by (simp add: freshWorld_def)
qed

text \<open>
C3, amended. \<open>getMap\<close> always returns a map; nothing escapes its \<^verbatim>\<open>try\<close>. On a stored
  text that \<^verbatim>\<open>JSON.parse\<close> rejects it returns the empty map and logs the SyntaxError, unless
  the text is the empty string, which is never parsed and gives the empty map with no log.
  On valid JSON that is not an array it returns the empty map and logs nothing. On an
  array it logs nothing, drops the elements that are not arrays starting with a string
  and a number, and keeps the others: every entry of the map comes from such an element,
  the key of every such element is in the map, and the last element of a key gives its
  count.
\<close>

theorem getMap_corrupt:
  "(sessionStorage w (storageKey this) = Some (NotJSON s) \<and> s \<noteq> [] \<longrightarrow>
      getMap this w = ([], w\<lparr>console := console w @ [SyntaxError s]\<rparr>)) \<and>
   (sessionStorage w (storageKey this) = Some (NotJSON []) \<longrightarrow> getMap this w = ([], w)) \<and>
   (sessionStorage w (storageKey this) = Some (JSONText j) \<and> (\<forall>vs. j \<noteq> JArr vs) \<longrightarrow>
      getMap this w = ([], w)) \<and>
   (sessionStorage w (storageKey this) = Some (JSONText (JArr vs)) \<longrightarrow>
      snd (getMap this w) = w \<and>
      map_of (fst (getMap this w)) = map_of (rev (List.map_filter entry vs)) \<and>
      (\<forall>k n. (k, n) \<in> set (fst (getMap this w)) \<longrightarrow>
         (\<exists>rest. JArr (JStr k # JNum n # rest) \<in> set vs)) \<and>
      (\<forall>k n rest. JArr (JStr k # JNum n # rest) \<in> set vs \<longrightarrow>
         k \<in> fst ` set (fst (getMap this w))))"
proof -
  have a: "sessionStorage w (storageKey this) = Some (NotJSON s) \<and> s \<noteq> [] \<longrightarrow>
      getMap this w = ([], w\<lparr>console := console w @ [SyntaxError s]\<rparr>)"
    by (simp add: getMap_def)
  have b: "sessionStorage w (storageKey this) = Some (NotJSON []) \<longrightarrow> getMap this w = ([], w)"
    by (simp add: getMap_def new_Map_def)
  have c: "sessionStorage w (storageKey this) = Some (JSONText j) \<and> (\<forall>vs. j \<noteq> JArr vs) \<longrightarrow>
      getMap this w = ([], w)"
    by (cases j) (simp_all add: getMap_def new_Map_def)
  have d: "sessionStorage w (storageKey this) = Some (JSONText (JArr vs)) \<longrightarrow>
      snd (getMap this w) = w \<and>
      map_of (fst (getMap this w)) = map_of (rev (List.map_filter entry vs)) \<and>
      (\<forall>k n. (k, n) \<in> set (fst (getMap this w)) \<longrightarrow>
         (\<exists>rest. JArr (JStr k # JNum n # rest) \<in> set vs)) \<and>
      (\<forall>k n rest. JArr (JStr k # JNum n # rest) \<in> set vs \<longrightarrow>
         k \<in> fst ` set (fst (getMap this w)))"
  proof
    assume st: "sessionStorage w (storageKey this) = Some (JSONText (JArr vs))"
    then have g: "getMap this w = (new_Map (List.map_filter entry vs), w)"
      by (simp add: getMap_def)
    have "\<exists>rest. JArr (JStr k # JNum n # rest) \<in> set vs"
      if "(k, n) \<in> set (new_Map (List.map_filter entry vs))" for k n
      using that new_Map_set [of "List.map_filter entry vs"]
      by (auto simp: set_map_filter_entry)
    moreover have "k \<in> fst ` set (new_Map (List.map_filter entry vs))"
      if "JArr (JStr k # JNum n # rest) \<in> set vs" for k n rest
    proof -
      from that have "(k, n) \<in> set (List.map_filter entry vs)"
        by (auto simp: set_map_filter_entry)
      then have "k \<in> fst ` set (List.map_filter entry vs)" by force
      then show ?thesis by (simp add: new_Map_dom)
    qed
    ultimately show "snd (getMap this w) = w \<and>
      map_of (fst (getMap this w)) = map_of (rev (List.map_filter entry vs)) \<and>
      (\<forall>k n. (k, n) \<in> set (fst (getMap this w)) \<longrightarrow>
         (\<exists>rest. JArr (JStr k # JNum n # rest) \<in> set vs)) \<and>
      (\<forall>k n rest. JArr (JStr k # JNum n # rest) \<in> set vs \<longrightarrow>
         k \<in> fst ` set (fst (getMap this w)))"
      by (simp add: g new_Map_map_of)
  qed
  from a b c d show ?thesis by blast
qed

theorem getMap_corrupt_witness:
  "getMap (ForceReloadStorage defaultStorageKey)
     (freshWorld\<lparr>sessionStorage := [defaultStorageKey \<mapsto> NotJSON ''invalid'']\<rparr>) =
     ([], freshWorld\<lparr>sessionStorage := [defaultStorageKey \<mapsto> NotJSON ''invalid''],
                     console := [SyntaxError ''invalid'']\<rparr>) \<and>
   getMap (ForceReloadStorage defaultStorageKey)
     (freshWorld\<lparr>sessionStorage := [defaultStorageKey \<mapsto> JSONText (JNum (Finite 5))]\<rparr>) =
     ([], freshWorld\<lparr>sessionStorage := [defaultStorageKey \<mapsto> JSONText (JNum (Finite 5))]\<rparr>) \<and>
   ''a'' \<in> fst ` set (fst (getMap (ForceReloadStorage defaultStorageKey)
     (freshWorld\<lparr>sessionStorage :=
        [defaultStorageKey \<mapsto> JSONText (JArr [JNum (Finite 7), JArr [JStr ''a'', JNum (Finite 1)], JArr [JStr ''b'']])]\<rparr>)))"
  using getMap_corrupt [of "freshWorld\<lparr>sessionStorage := [defaultStorageKey \<mapsto> NotJSON ''invalid'']\<rparr>"
          "ForceReloadStorage defaultStorageKey" "''invalid''" "JNum (Finite 5)" "[]"]
        getMap_corrupt [of "freshWorld\<lparr>sessionStorage := [defaultStorageKey \<mapsto> JSONText (JNum (Finite 5))]\<rparr>"
          "ForceReloadStorage defaultStorageKey" "''x''" "JNum (Finite 5)" "[]"]
        getMap_corrupt [of "freshWorld\<lparr>sessionStorage :=
            [defaultStorageKey \<mapsto> JSONText (JArr [JNum (Finite 7), JArr [JStr ''a'', JNum (Finite 1)], JArr [JStr ''b'']])]\<rparr>"
          "ForceReloadStorage defaultStorageKey" "''x''" "JNum (Finite 5)"
          "[JNum (Finite 7), JArr [JStr ''a'', JNum (Finite 1)], JArr [JStr ''b'']]"]
  by (simp add: freshWorld_def)

text \<open>
The stored text \<^verbatim>\<open>{"a":1}\<close> is valid JSON and not an array: \<open>getMap\<close> returns the
  empty map and the console is as it was.
\<close>

theorem getMap_logs_counterexample:
  "fst (getMap (ForceReloadStorage defaultStorageKey)
     (freshWorld\<lparr>sessionStorage := [defaultStorageKey \<mapsto> JSONText (JObj [(''a'', JNum (Finite 1))])]\<rparr>)) = [] \<and>
   console (snd (getMap (ForceReloadStorage defaultStorageKey)
     (freshWorld\<lparr>sessionStorage := [defaultStorageKey \<mapsto> JSONText (JObj [(''a'', JNum (Finite 1))])]\<rparr>))) =
   console (freshWorld\<lparr>sessionStorage := [defaultStorageKey \<mapsto> JSONText (JObj [(''a'', JNum (Finite 1))])]\<rparr>)"
  by (simp add: getMap_def freshWorld_def new_Map_def)

text \<open>
C4. When the import resolves in the end and \<open>maxRetries > 0\<close>, the wrapped loader
  resolves with the module of the import, and the ledger read back afterwards has no
  entry for the source text of the import function: the key is absent, not set to 0.
\<close>

theorem success_clears_entry:
  assumes "fst (tryImport (importRetries (config env)) (outcome f) 0 w) = Inr c"
    and "0 < maxRetries (forceReload (config env))"
  shows "fst (safeLazy env f w) = Inr (Module c) \<and>
         map_of (fst (getMap (reloadStorage env) (snd (safeLazy env f w)))) (toString f) = None \<and>
         toString f \<notin> fst ` set (fst (getMap (reloadStorage env) (snd (safeLazy env f w))))"
proof -
  note s = safeLazy_resolved [OF assms(1)]
  have "fst (getMap (reloadStorage env) (snd (safeLazy env f w))) =
        fst (getMap (reloadStorage env) (removeFunction (reloadStorage env) (toString f) w))"
    by (rule getMap_fst_cong) (use s assms(2) in simp)
  then have none: "map_of (fst (getMap (reloadStorage env) (snd (safeLazy env f w)))) (toString f) = None"
    by (simp add: removeFunction_lookup)
  then have "toString f \<notin> fst ` set (fst (getMap (reloadStorage env) (snd (safeLazy env f w))))"
    by (simp add: map_of_eq_None_iff)
  with none s show ?thesis by simp
qed

theorem success_clears_entry_witness:
  "fst (tryImport (importRetries (config (createSafeLazy noInit))) (outcome rejectsOnce) 0
         (snd (safeLazy (createSafeLazy noInit) rejectsOnce freshWorld))) = Inr ''Component'' \<and>
   0 < maxRetries (forceReload (config (createSafeLazy noInit))) \<and>
   map_of (fst (getMap (reloadStorage (createSafeLazy noInit))
      (snd (safeLazy (createSafeLazy noInit) rejectsOnce freshWorld)))) (toString rejectsOnce) = Some (Finite 1) \<and>
   fst (safeLazy (createSafeLazy noInit) rejectsOnce
         (snd (safeLazy (createSafeLazy noInit) rejectsOnce freshWorld))) = Inr (Module ''Component'') \<and>
   map_of (fst (getMap (reloadStorage (createSafeLazy noInit))
      (snd (safeLazy (createSafeLazy noInit) rejectsOnce
         (snd (safeLazy (createSafeLazy noInit) rejectsOnce freshWorld)))))) (toString rejectsOnce) = None"
proof -
  let ?env = "createSafeLazy noInit"
  let ?w1 = "snd (safeLazy ?env rejectsOnce freshWorld)"
  have w1: "?w1 = \<lparr>sessionStorage = [defaultStorageKey \<mapsto>
                      JSONText (JArr [JArr [JStr ''importFunction'', JNum (Finite 1)]])],
                   console = [Thrown ''Failed to load component''], reloads = 1, calls = 1\<rparr>"
    by (simp add: safeLazy_def lazyLoader_def tryImport.simps createSafeLazy_def createConfig_def
          noInit_def rejectsOnce_def freshWorld_def getMap_def addFunction_def save_def
          new_Map_def new_ForceReloadStorage_def JSON_stringify_def)
  have ok: "fst (tryImport (importRetries (config ?env)) (outcome rejectsOnce) 0 ?w1) = Inr ''Component''"
    unfolding w1
    by (simp add: tryImport.simps rejectsOnce_def createSafeLazy_def createConfig_def noInit_def)
  have on: "0 < maxRetries (forceReload (config ?env))"
    by (simp add: createSafeLazy_def createConfig_def noInit_def)
  have before: "map_of (fst (getMap (reloadStorage ?env) ?w1)) (toString rejectsOnce) = Some (Finite 1)"
    unfolding w1
    by (simp add: getMap_def createSafeLazy_def createConfig_def noInit_def
          new_ForceReloadStorage_def new_Map_def rejectsOnce_def)
  from success_clears_entry [OF ok on] ok on before show ?thesis by simp
qed

text \<open>
C5. \<^verbatim>\<open>forceReload: false\<close> resolves to \<open>maxRetries = 0\<close>, and the doc comment of the
  option says that force-reloading is then disabled. The page is reloaded all the same
  when the count on record for the import function is below 0: with the stored text
  \<^verbatim>\<open>[ ["importFunction", -1] ]\<close>, a render whose import fails finds \<open>-1 < 0\<close>, resolves with
  the placeholder instead of rejecting, and reloads the page. The success path tests
  \<^verbatim>\<open>maxRetries > 0\<close> before it writes to the ledger; the failure path has no such test.
\<close>

theorem forceReload_false_negative_count:
  "maxRetries (forceReload (config (createSafeLazy
      \<lparr>forceReloadInit = Some Disabled, importRetriesInit = None\<rparr>))) = 0 \<and>
   reloads (freshWorld\<lparr>sessionStorage := [defaultStorageKey \<mapsto>
      JSONText (JArr [JArr [JStr ''importFunction'', JNum (Finite (- 1))]])]\<rparr>) = 0 \<and>
   fst (safeLazy (createSafeLazy \<lparr>forceReloadInit = Some Disabled, importRetriesInit = None\<rparr>)
      alwaysRejects
      (freshWorld\<lparr>sessionStorage := [defaultStorageKey \<mapsto>
         JSONText (JArr [JArr [JStr ''importFunction'', JNum (Finite (- 1))]])]\<rparr>)) = Inr Placeholder \<and>
   reloads (snd (safeLazy (createSafeLazy \<lparr>forceReloadInit = Some Disabled, importRetriesInit = None\<rparr>)
      alwaysRejects
      (freshWorld\<lparr>sessionStorage := [defaultStorageKey \<mapsto>
         JSONText (JArr [JArr [JStr ''importFunction'', JNum (Finite (- 1))]])]\<rparr>))) = 1"
  by (simp add: safeLazy_def lazyLoader_def tryImport.simps createSafeLazy_def createConfig_def
        alwaysRejects_def freshWorld_def getMap_def addFunction_def save_def new_Map_def
        new_ForceReloadStorage_def JSON_stringify_def)

text \<open>
Where the count on record for the import function is not below 0, a factory made with
  \<^verbatim>\<open>forceReload: false\<close> never reloads the page and never resolves with the placeholder,
  over any number of renders and whatever the import function does, and a render whose
  import retries are exhausted rejects with the rejection of the last attempt.
\<close>

lemma forceReload_false_never_reloads:
  assumes off: "forceReloadInit init = Some Disabled"
    and inv: "\<not> numLess (reloadCount (reloadStorage (createSafeLazy init)) (toString f) w) 0"
  shows "maxRetries (forceReload (createConfig init)) = 0 \<and>
         (\<forall>n. reloads (snd (renders n (createSafeLazy init) f w)) = reloads w \<and>
              Inr Placeholder \<notin> set (fst (renders n (createSafeLazy init) f w))) \<and>
         (\<forall>e. fst (tryImport (importRetries (config (createSafeLazy init))) (outcome f) 0 w) = Inl e
              \<longrightarrow> fst (safeLazy (createSafeLazy init) f w) = Inl e \<and>
                  reloads (snd (safeLazy (createSafeLazy init) f w)) = reloads w)"
proof -
  let ?env = "createSafeLazy init"
  have z: "maxRetries (forceReload (createConfig init)) = 0"
    using off by (simp add: createConfig_def)
  then have z': "maxRetries (forceReload (config ?env)) = 0"
    by (simp add: createSafeLazy_def Let_def)
  have le: "maxRetries (forceReload (config ?env)) \<le> 0"
    and inv': "\<not> numLess (reloadCount (reloadStorage ?env) (toString f) w)
                  (maxRetries (forceReload (config ?env)))"
    using inv by (simp_all add: z')
  note r = renders_no_budget [OF le inv']
  note s = lazyLoader_no_budget [OF le inv', of 0]
  from z r s show ?thesis by (simp add: safeLazy_def split_beta)
qed

lemma forceReload_false_never_reloads_witness:
  "forceReloadInit \<lparr>forceReloadInit = Some Disabled, importRetriesInit = Some 0\<rparr> = Some Disabled \<and>
   reloadCount (reloadStorage (createSafeLazy
          \<lparr>forceReloadInit = Some Disabled, importRetriesInit = Some 0\<rparr>))
          (toString alwaysRejects)
          (freshWorld\<lparr>sessionStorage := [defaultStorageKey \<mapsto>
             JSONText (JArr [JArr [JStr ''importFunction'', JNum (Finite 2)]])]\<rparr>) = Finite 2 \<and>
   reloads (snd (renders 3 (createSafeLazy
          \<lparr>forceReloadInit = Some Disabled, importRetriesInit = Some 0\<rparr>) alwaysRejects
          (freshWorld\<lparr>sessionStorage := [defaultStorageKey \<mapsto>
             JSONText (JArr [JArr [JStr ''importFunction'', JNum (Finite 2)]])]\<rparr>))) = 0 \<and>
   fst (safeLazy (createSafeLazy
          \<lparr>forceReloadInit = Some Disabled, importRetriesInit = Some 0\<rparr>) alwaysRejects
          (freshWorld\<lparr>sessionStorage := [defaultStorageKey \<mapsto>
             JSONText (JArr [JArr [JStr ''importFunction'', JNum (Finite 2)]])]\<rparr>)) =
     Inl ''Failed to load component''"
proof -
  let ?init = "\<lparr>forceReloadInit = Some Disabled, importRetriesInit = Some 0\<rparr>"
  let ?w = "freshWorld\<lparr>sessionStorage := [defaultStorageKey \<mapsto>
             JSONText (JArr [JArr [JStr ''importFunction'', JNum (Finite 2)]])]\<rparr>"
  have off: "forceReloadInit ?init = Some Disabled" by simp
  have count: "reloadCount (reloadStorage (createSafeLazy ?init)) (toString alwaysRejects) ?w = Finite 2"
    by (simp add: reloadCount_def getMap_def new_Map_def createSafeLazy_def createConfig_def
          new_ForceReloadStorage_def alwaysRejects_def)
  then have inv: "\<not> numLess (reloadCount (reloadStorage (createSafeLazy ?init))
                      (toString alwaysRejects) ?w) 0"
    by simp
  have ko: "fst (tryImport (importRetries (config (createSafeLazy ?init))) (outcome alwaysRejects) 0 ?w) =
              Inl ''Failed to load component''"
    by (simp add: tryImport.simps createSafeLazy_def createConfig_def alwaysRejects_def)
  from forceReload_false_never_reloads [OF off inv] off count ko show ?thesis
    by (simp add: freshWorld_def)
qed

text \<open>
C6, amended. \<open>addFunction\<close> followed by \<open>getMap\<close> gives a key that was absent the count
  \<open>0 + 1\<close>, and a key whose count was an integer \<open>i\<close> from \<open>- 2 ^ 53\<close> to \<open>2 ^ 53 - 1\<close>
  the count \<open>i + 1\<close>, whatever else the storage holds. \<open>removeFunction\<close> followed by
  \<open>getMap\<close> has no entry for the key, for every content of the storage. A map (its keys
  are distinct) whose counts are all finite, saved and read back, is the same map, entry
  for entry and in the same order, and reading it logs nothing.
\<close>

theorem ledger_round_trip:
  "(map_of (fst (getMap this w)) k = None \<longrightarrow>
      map_of (fst (getMap this (addFunction this k w))) k = Some (Finite (0 + 1))) \<and>
   (map_of (fst (getMap this w)) k = Some (Finite (of_int i)) \<and> - (2 ^ 53) \<le> i \<and> i < 2 ^ 53 \<longrightarrow>
      map_of (fst (getMap this (addFunction this k w))) k = Some (Finite (of_int (i + 1)))) \<and>
   map_of (fst (getMap this (removeFunction this k w))) k = None \<and>
   (distinct (map fst m) \<and> (\<forall>(k, n) \<in> set m. isFinite n) \<longrightarrow>
      getMap this (save this m w) = (m, save this m w))"
  by (simp add: addFunction_lookup removeFunction_lookup reloadCount_def getMap_save
        filter_finite_id)

theorem ledger_round_trip_witness:
  "map_of (fst (getMap (ForceReloadStorage ''key'')
      (save (ForceReloadStorage ''key'') [(''a'', Finite 1), (''b'', Finite 2)] freshWorld))) ''a'' =
     Some (Finite (of_int 1)) \<and>
   map_of (fst (getMap (ForceReloadStorage ''key'')
      (addFunction (ForceReloadStorage ''key'') ''a''
         (save (ForceReloadStorage ''key'') [(''a'', Finite 1), (''b'', Finite 2)] freshWorld)))) ''a'' =
     Some (Finite 2) \<and>
   map_of (fst (getMap (ForceReloadStorage ''key'')
      (addFunction (ForceReloadStorage ''key'') ''c''
         (save (ForceReloadStorage ''key'') [(''a'', Finite 1), (''b'', Finite 2)] freshWorld)))) ''c'' =
     Some (Finite 1) \<and>
   distinct (map fst [(''a'', Finite 1), (''b'', Finite 2)]) \<and>
   fst (getMap (ForceReloadStorage ''key'')
          (save (ForceReloadStorage ''key'') [(''a'', Finite 1), (''b'', Finite 2)] freshWorld)) =
     [(''a'', Finite 1), (''b'', Finite 2)]"
proof -
  let ?S = "ForceReloadStorage ''key''"
  let ?m = "[(''a'', Finite 1), (''b'', Finite 2)]"
  let ?w = "save ?S ?m freshWorld"
  have d: "distinct (map fst ?m)" by simp
  have fin: "\<forall>(k, n) \<in> set ?m. isFinite n" by simp
  from ledger_round_trip [of ?S freshWorld "''a''" 1 ?m] d fin
  have rt: "getMap ?S ?w = (?m, ?w)" by blast
  then have a: "map_of (fst (getMap ?S ?w)) ''a'' = Some (Finite (of_int 1))"
    and c: "map_of (fst (getMap ?S ?w)) ''c'' = None"
    by simp_all
  have range: "- (2 ^ 53) \<le> (1::int) \<and> (1::int) < 2 ^ 53" by simp
  from ledger_round_trip [of ?S ?w "''a''" 1 ?m] a range
  have a': "map_of (fst (getMap ?S (addFunction ?S ''a'' ?w))) ''a'' = Some (Finite (of_int (1 + 1)))"
    by blast
  from ledger_round_trip [of ?S ?w "''c''" 1 ?m] c
  have c': "map_of (fst (getMap ?S (addFunction ?S ''c'' ?w))) ''c'' = Some (Finite (0 + 1))"
    by blast
  from rt a a' c' d show ?thesis by simp
qed

text \<open>
The stored text \<^verbatim>\<open>[ ["a", 1e309] ]\<close> is an array of one string and number pair, and
  \<open>getMap\<close> reads the count \<^verbatim>\<open>Infinity\<close> for \<^verbatim>\<open>a\<close>. After \<open>addFunction\<close> on \<^verbatim>\<open>a\<close> the
  key is absent: the count was written as \<^verbatim>\<open>null\<close>.
\<close>

theorem ledger_round_trip_counterexample:
  "map_of (fst (getMap (ForceReloadStorage ''key'')
      (freshWorld\<lparr>sessionStorage := [''key'' \<mapsto> JSONText (JArr [JArr [JStr ''a'', JNum Infinity]])]\<rparr>)))
      ''a'' = Some Infinity \<and>
   map_of (fst (getMap (ForceReloadStorage ''key'')
      (addFunction (ForceReloadStorage ''key'') ''a''
         (freshWorld\<lparr>sessionStorage := [''key'' \<mapsto> JSONText (JArr [JArr [JStr ''a'', JNum Infinity]])]\<rparr>))))
      ''a'' = None"
  by (simp add: getMap_def addFunction_def save_def JSON_stringify_def new_Map_def freshWorld_def)

text \<open>
C7. With \<^verbatim>\<open>forceReload\<close> omitted the factory has \<open>maxRetries = 1\<close> and its ledger
  the storage key \<^verbatim>\<open>forceReloadedImportFunctions\<close>; with a partial object each of the two
  is the value given, or that default when the property is not there; with
  \<^verbatim>\<open>importRetries\<close> omitted it is 0. So \<^verbatim>\<open>createSafeLazy()\<close> works with
  \<open>maxRetries = 1\<close>, the default storage key and \<open>importRetries = 0\<close>. The default key
  is put in by the constructor of \<^verbatim>\<open>ForceReloadStorage\<close>, which is where the factory
  reads it.
\<close>

theorem createSafeLazy_defaults:
  "(forceReloadInit init = None \<longrightarrow>
      maxRetries (forceReload (config (createSafeLazy init))) = 1 \<and>
      storageKey (reloadStorage (createSafeLazy init)) = ''forceReloadedImportFunctions'') \<and>
   (forceReloadInit init = Some (Object p) \<longrightarrow>
      maxRetries (forceReload (config (createSafeLazy init))) =
        (case maxRetriesInit p of None \<Rightarrow> 1 | Some m \<Rightarrow> m) \<and>
      storageKey (reloadStorage (createSafeLazy init)) =
        (case storageKeyInit p of None \<Rightarrow> ''forceReloadedImportFunctions'' | Some s \<Rightarrow> s)) \<and>
   (importRetriesInit init = None \<longrightarrow> importRetries (config (createSafeLazy init)) = 0) \<and>
   maxRetries (forceReload (config (createSafeLazy noInit))) = 1 \<and>
   storageKey (reloadStorage (createSafeLazy noInit)) = ''forceReloadedImportFunctions'' \<and>
   importRetries (config (createSafeLazy noInit)) = 0"
  by (simp add: createSafeLazy_def createConfig_def new_ForceReloadStorage_def
        defaultStorageKey_def noInit_def split: option.splits)

theorem createSafeLazy_defaults_witness:
  "maxRetries (forceReload (config (createSafeLazy
      \<lparr>forceReloadInit = Some (Object \<lparr>maxRetriesInit = Some 2, storageKeyInit = None\<rparr>),
       importRetriesInit = None\<rparr>))) = 2 \<and>
   storageKey (reloadStorage (createSafeLazy
      \<lparr>forceReloadInit = Some (Object \<lparr>maxRetriesInit = Some 2, storageKeyInit = None\<rparr>),
       importRetriesInit = None\<rparr>)) = ''forceReloadedImportFunctions'' \<and>
   importRetries (config (createSafeLazy
      \<lparr>forceReloadInit = Some (Object \<lparr>maxRetriesInit = Some 2, storageKeyInit = None\<rparr>),
       importRetriesInit = None\<rparr>)) = 0 \<and>
   maxRetries (forceReload (config (createSafeLazy
      \<lparr>forceReloadInit = None, importRetriesInit = Some 3\<rparr>))) = 1 \<and>
   storageKey (reloadStorage (createSafeLazy
      \<lparr>forceReloadInit = None, importRetriesInit = Some 3\<rparr>)) = ''forceReloadedImportFunctions''"
  using createSafeLazy_defaults
          [of "\<lparr>forceReloadInit = Some (Object \<lparr>maxRetriesInit = Some 2, storageKeyInit = None\<rparr>),
                importRetriesInit = None\<rparr>"
              "\<lparr>maxRetriesInit = Some 2, storageKeyInit = None\<rparr>"]
        createSafeLazy_defaults
          [of "\<lparr>forceReloadInit = None, importRetriesInit = Some 3\<rparr>"
              "\<lparr>maxRetriesInit = None, storageKeyInit = None\<rparr>"]
  by simp

text \<open>
C8. If no count of the ledger is below 0, none is after any sequence of
  \<open>addFunction\<close> and \<open>removeFunction\<close>, and from an empty ledger no count is below 1.
  After \<open>addFunction\<close> on a ledger with no count below 0, the count read for the key is
  not below 1, and the key is there when its count before was finite or absent. A key
  that is absent counts as 0: \<open>addFunction\<close> gives it the count \<open>0 + 1\<close>, and when the
  import of its function fails the wrapped loader reloads exactly if \<open>0 < maxRetries\<close>.
\<close>

theorem ledger_counts:
  "((\<forall>(k, n) \<in> set (fst (getMap this w)). \<not> numLess n 0) \<longrightarrow>
      (\<forall>(k, n) \<in> set (fst (getMap this (applyOps this ops w))). \<not> numLess n 0)) \<and>
   (fst (getMap this w) = [] \<longrightarrow>
      (\<forall>(k, n) \<in> set (fst (getMap this (applyOps this ops w))). \<not> numLess n 1)) \<and>
   ((\<forall>(k, n) \<in> set (fst (getMap this w)). \<not> numLess n 0) \<longrightarrow>
      (\<forall>n. map_of (fst (getMap this (addFunction this key w))) key = Some n \<longrightarrow> \<not> numLess n 1) \<and>
      (isFinite (reloadCount this key w) \<longrightarrow>
         (\<exists>n. map_of (fst (getMap this (addFunction this key w))) key = Some n \<and> \<not> numLess n 1))) \<and>
   (map_of (fst (getMap this w)) key = None \<longrightarrow>
      map_of (fst (getMap this (addFunction this key w))) key = Some (Finite (0 + 1))) \<and>
   (map_of (fst (getMap (reloadStorage env) v)) (toString f) = None \<and>
    fst (tryImport (importRetries (config env)) (outcome f) 0 v) = Inl e \<longrightarrow>
      fst (safeLazy env f v) =
        (if 0 < maxRetries (forceReload (config env)) then Inr Placeholder else Inl e))"
proof -
  have a: "(\<forall>(k, n) \<in> set (fst (getMap this w)). \<not> numLess n 0) \<longrightarrow>
      (\<forall>(k, n) \<in> set (fst (getMap this (applyOps this ops w))). \<not> numLess n 0)"
    using applyOps_bound [of this w 0 ops] by simp
  have b: "fst (getMap this w) = [] \<longrightarrow>
      (\<forall>(k, n) \<in> set (fst (getMap this (applyOps this ops w))). \<not> numLess n 1)"
    using applyOps_bound [of this w 1 ops] by simp
  have c: "(\<forall>(k, n) \<in> set (fst (getMap this w)). \<not> numLess n 0) \<longrightarrow>
      (\<forall>n. map_of (fst (getMap this (addFunction this key w))) key = Some n \<longrightarrow> \<not> numLess n 1) \<and>
      (isFinite (reloadCount this key w) \<longrightarrow>
         (\<exists>n. map_of (fst (getMap this (addFunction this key w))) key = Some n \<and> \<not> numLess n 1))"
  proof
    assume inv: "\<forall>(k, n) \<in> set (fst (getMap this w)). \<not> numLess n 0"
    have "\<not> numLess (reloadCount this key w) 0"
    proof (cases "map_of (fst (getMap this w)) key")
      case None
      then show ?thesis by (simp add: reloadCount_def)
    next
      case (Some n)
      then have "(key, n) \<in> set (fst (getMap this w))" by (rule map_of_SomeD)
      with inv have "\<not> numLess n 0" by auto
      with Some show ?thesis by (simp add: reloadCount_def)
    qed
    then have ge: "\<not> numLess (plus1 (reloadCount this key w)) 1"
      by (cases "reloadCount this key w") auto
    have fin: "isFinite (plus1 n) = isFinite n" for n by (cases n) auto
    from ge show "(\<forall>n. map_of (fst (getMap this (addFunction this key w))) key = Some n \<longrightarrow> \<not> numLess n 1) \<and>
      (isFinite (reloadCount this key w) \<longrightarrow>
         (\<exists>n. map_of (fst (getMap this (addFunction this key w))) key = Some n \<and> \<not> numLess n 1))"
      by (simp add: addFunction_lookup fin)
  qed
  have d: "map_of (fst (getMap this w)) key = None \<longrightarrow>
      map_of (fst (getMap this (addFunction this key w))) key = Some (Finite (0 + 1))"
    by (simp add: addFunction_lookup reloadCount_def)
  have e: "map_of (fst (getMap (reloadStorage env) v)) (toString f) = None \<and>
    fst (tryImport (importRetries (config env)) (outcome f) 0 v) = Inl e \<longrightarrow>
      fst (safeLazy env f v) =
        (if 0 < maxRetries (forceReload (config env)) then Inr Placeholder else Inl e)"
    using safeLazy_rejected [of env f v e] by (auto simp: reloadCount_def)
  from a b c d e show ?thesis by blast
qed

theorem ledger_counts_witness:
  "fst (getMap (ForceReloadStorage ''customKey'')
     (save (ForceReloadStorage ''customKey'') [(''a'', Finite 1), (''b'', Finite 0)] freshWorld)) =
     [(''a'', Finite 1), (''b'', Finite 0)] \<and>
   fst (getMap (ForceReloadStorage ''customKey'')
     (applyOps (ForceReloadStorage ''customKey'') [Increment ''b'', Remove ''a'']
        (save (ForceReloadStorage ''customKey'') [(''a'', Finite 1), (''b'', Finite 0)] freshWorld))) =
     [(''b'', Finite 1)] \<and>
   fst (getMap (ForceReloadStorage ''customKey'') freshWorld) = [] \<and>
   map_of (fst (getMap (ForceReloadStorage ''customKey'')
     (addFunction (ForceReloadStorage ''customKey'') ''a'' freshWorld))) ''a'' = Some (Finite 1) \<and>
   fst (tryImport (importRetries (config (createSafeLazy noInit))) (outcome alwaysRejects) 0 freshWorld) =
     Inl ''Failed to load component'' \<and>
   fst (safeLazy (createSafeLazy noInit) alwaysRejects freshWorld) = Inr Placeholder"
proof -
  let ?S = "ForceReloadStorage ''customKey''" and ?env = "createSafeLazy noInit"
  let ?w = "save ?S [(''a'', Finite 1), (''b'', Finite 0)] freshWorld"
  have stored: "fst (getMap ?S ?w) = [(''a'', Finite 1), (''b'', Finite 0)]"
    by (simp add: getMap_save)
  then have nonneg: "\<forall>(k, n) \<in> set (fst (getMap ?S ?w)). \<not> numLess n 0"
    by simp
  have after: "fst (getMap ?S (applyOps ?S [Increment ''b'', Remove ''a''] ?w)) = [(''b'', Finite 1)]"
    by (simp add: applyOps_def addFunction_read removeFunction_read reloadCount_def stored)
  have empty: "fst (getMap ?S freshWorld) = []"
    by (simp add: getMap_def freshWorld_def new_Map_def)
  have absent: "map_of (fst (getMap (reloadStorage ?env) freshWorld)) (toString alwaysRejects) = None"
    by (simp add: getMap_def freshWorld_def new_Map_def)
  have ko: "fst (tryImport (importRetries (config ?env)) (outcome alwaysRejects) 0 freshWorld) =
              Inl ''Failed to load component''"
    by (simp add: tryImport.simps createSafeLazy_def createConfig_def noInit_def alwaysRejects_def)
  have on: "0 < maxRetries (forceReload (config ?env))"
    by (simp add: createSafeLazy_def createConfig_def noInit_def)
  from ledger_counts [of ?S ?w "[Increment ''b'', Remove ''a'']" "''b''" ?env freshWorld alwaysRejects
         "''Failed to load component''"] nonneg
  have kept: "\<forall>(k, n) \<in> set (fst (getMap ?S (applyOps ?S [Increment ''b'', Remove ''a''] ?w))). \<not> numLess n 0"
    by blast
  from ledger_counts [of ?S freshWorld "[Increment ''a'']" "''a''" ?env freshWorld alwaysRejects
         "''Failed to load component''"] kept empty absent ko on stored after
  show ?thesis by simp
qed

text \<open>
C9, amended. \<open>addFunction\<close> and \<open>removeFunction\<close> on a key \<open>k\<close> write every entry of
  the ledger anew. For a key other than \<open>k\<close>, what is read afterwards is what was read
  before when its count is finite (or the key absent), and nothing when its count is not
  finite: such a count is written as \<^verbatim>\<open>null\<close> and the entry is dropped by the next
  read. So the count of every other key with a finite count is unchanged.
\<close>

theorem ledger_frame:
  "k' \<noteq> k \<Longrightarrow>
   map_of (fst (getMap this (addFunction this k w))) k' =
     (case map_of (fst (getMap this w)) k' of
        None \<Rightarrow> None | Some n \<Rightarrow> if isFinite n then Some n else None) \<and>
   map_of (fst (getMap this (removeFunction this k w))) k' =
     (case map_of (fst (getMap this w)) k' of
        None \<Rightarrow> None | Some n \<Rightarrow> if isFinite n then Some n else None) \<and>
   ((\<forall>n. map_of (fst (getMap this w)) k' = Some n \<longrightarrow> isFinite n) \<longrightarrow>
      map_of (fst (getMap this (addFunction this k w))) k' = map_of (fst (getMap this w)) k' \<and>
      map_of (fst (getMap this (removeFunction this k w))) k' = map_of (fst (getMap this w)) k')"
  by (auto simp: addFunction_lookup removeFunction_lookup split: option.splits)

theorem ledger_frame_witness:
  "''b'' \<noteq> ''a'' \<and>
   map_of (fst (getMap (ForceReloadStorage ''key'')
     (save (ForceReloadStorage ''key'') [(''a'', Finite 1), (''b'', Finite 2)] freshWorld))) ''b'' =
     Some (Finite 2) \<and>
   map_of (fst (getMap (ForceReloadStorage ''key'')
     (addFunction (ForceReloadStorage ''key'') ''a''
        (save (ForceReloadStorage ''key'') [(''a'', Finite 1), (''b'', Finite 2)] freshWorld)))) ''b'' =
     Some (Finite 2) \<and>
   map_of (fst (getMap (ForceReloadStorage ''key'')
     (removeFunction (ForceReloadStorage ''key'') ''a''
        (save (ForceReloadStorage ''key'') [(''a'', Finite 1), (''b'', Finite 2)] freshWorld)))) ''b'' =
     Some (Finite 2)"
proof -
  let ?S = "ForceReloadStorage ''key''"
  let ?w = "save ?S [(''a'', Finite 1), (''b'', Finite 2)] freshWorld"
  have ne: "''b'' \<noteq> ''a''" by simp
  have b: "map_of (fst (getMap ?S ?w)) ''b'' = Some (Finite 2)"
    by (simp add: getMap_save)
  then have fin: "\<forall>n. map_of (fst (getMap ?S ?w)) ''b'' = Some n \<longrightarrow> isFinite n"
    by simp
  from ledger_frame [OF ne, of ?S ?w] fin b ne show ?thesis by simp
qed

text \<open>
The stored text \<^verbatim>\<open>[ ["b", 1e309] ]\<close> gives \<^verbatim>\<open>b\<close> the count \<^verbatim>\<open>Infinity\<close>. After
  \<open>addFunction\<close> on the other key \<^verbatim>\<open>a\<close>, the key \<^verbatim>\<open>b\<close> is absent.
\<close>

theorem ledger_frame_counterexample:
  "map_of (fst (getMap (ForceReloadStorage ''key'')
      (freshWorld\<lparr>sessionStorage := [''key'' \<mapsto> JSONText (JArr [JArr [JStr ''b'', JNum Infinity]])]\<rparr>)))
      ''b'' = Some Infinity \<and>
   map_of (fst (getMap (ForceReloadStorage ''key'')
      (addFunction (ForceReloadStorage ''key'') ''a''
         (freshWorld\<lparr>sessionStorage := [''key'' \<mapsto> JSONText (JArr [JArr [JStr ''b'', JNum Infinity]])]\<rparr>))))
      ''b'' = None"
  by (simp add: getMap_def addFunction_def save_def JSON_stringify_def new_Map_def freshWorld_def)

text \<open>
C10. With \<open>maxRetries = 0\<close> the success path skips the removal, but the failure path
  takes the branch that increments and reloads when the count on record for the import
  function is below 0: with the stored text \<^verbatim>\<open>[ ["importFunction", -1] ]\<close>, a render whose
  import fails rewrites the stored text to \<^verbatim>\<open>[ ["importFunction", 0] ]\<close>. It is the reload
  of C5 seen from the storage.
\<close>

theorem maxRetries_zero_negative_count:
  "maxRetries (forceReload (config (createSafeLazy
      \<lparr>forceReloadInit = Some (Object \<lparr>maxRetriesInit = Some 0, storageKeyInit = None\<rparr>),
       importRetriesInit = None\<rparr>))) = 0 \<and>
   sessionStorage (freshWorld\<lparr>sessionStorage := [defaultStorageKey \<mapsto>
      JSONText (JArr [JArr [JStr ''importFunction'', JNum (Finite (- 1))]])]\<rparr>) defaultStorageKey =
     Some (JSONText (JArr [JArr [JStr ''importFunction'', JNum (Finite (- 1))]])) \<and>
   sessionStorage (snd (safeLazy (createSafeLazy
      \<lparr>forceReloadInit = Some (Object \<lparr>maxRetriesInit = Some 0, storageKeyInit = None\<rparr>),
       importRetriesInit = None\<rparr>)
      alwaysRejects
      (freshWorld\<lparr>sessionStorage := [defaultStorageKey \<mapsto>
         JSONText (JArr [JArr [JStr ''importFunction'', JNum (Finite (- 1))]])]\<rparr>))) defaultStorageKey =
     Some (JSONText (JArr [JArr [JStr ''importFunction'', JNum (Finite 0)]]))"
  by (simp add: safeLazy_def lazyLoader_def tryImport.simps createSafeLazy_def createConfig_def
        alwaysRejects_def freshWorld_def getMap_def addFunction_def save_def new_Map_def
        new_ForceReloadStorage_def JSON_stringify_def)

text \<open>
Where the count on record for the import function is not below 0 and \<open>maxRetries\<close>
  is 0, the function given to \<^verbatim>\<open>lazy\<close> leaves the session storage as it found it,
  whatever \<^verbatim>\<open>retried\<close> is and however the import settles, and so does any number of
  renders.
\<close>

lemma maxRetries_zero_storage_unchanged:
  assumes "maxRetries (forceReload (config env)) = 0"
    and "\<not> numLess (reloadCount (reloadStorage env) (toString f) w) 0"
  shows "sessionStorage (snd (snd (lazyLoader env f retried w))) = sessionStorage w \<and>
         sessionStorage (snd (safeLazy env f w)) = sessionStorage w \<and>
         (\<forall>n. sessionStorage (snd (renders n env f w)) = sessionStorage w)"
proof -
  have le: "maxRetries (forceReload (config env)) \<le> 0"
    and inv: "\<not> numLess (reloadCount (reloadStorage env) (toString f) w)
                 (maxRetries (forceReload (config env)))"
    using assms by simp_all
  from lazyLoader_no_budget [OF le inv, of retried] lazyLoader_no_budget [OF le inv, of 0]
    renders_no_budget [OF le inv]
  show ?thesis by (simp add: safeLazy_def split_beta)
qed

lemma maxRetries_zero_storage_unchanged_witness:
  "maxRetries (forceReload (config (createSafeLazy
      \<lparr>forceReloadInit = Some Disabled, importRetriesInit = Some 1\<rparr>))) = 0 \<and>
   reloadCount (reloadStorage (createSafeLazy
          \<lparr>forceReloadInit = Some Disabled, importRetriesInit = Some 1\<rparr>))
          (toString rejectsOnce) freshWorld = Finite 0 \<and>
   sessionStorage (snd (safeLazy (createSafeLazy
      \<lparr>forceReloadInit = Some Disabled, importRetriesInit = Some 1\<rparr>) rejectsOnce freshWorld)) =
     Map.empty"
proof -
  let ?env = "createSafeLazy \<lparr>forceReloadInit = Some Disabled, importRetriesInit = Some 1\<rparr>"
  have z: "maxRetries (forceReload (config ?env)) = 0"
    by (simp add: createSafeLazy_def createConfig_def)
  have count: "reloadCount (reloadStorage ?env) (toString rejectsOnce) freshWorld = Finite 0"
    by (simp add: reloadCount_def getMap_def freshWorld_def new_Map_def)
  then have inv: "\<not> numLess (reloadCount (reloadStorage ?env) (toString rejectsOnce) freshWorld) 0"
    by simp
  from maxRetries_zero_storage_unchanged [OF z inv] z count show ?thesis
    by (simp add: freshWorld_def)
qed

end
